theory Spec2Isabelle
  imports Complex_Main "HOL-Library.AList"
begin

section \<open>Exceptions, collaborator calls and the shared environment\<close>

text \<open>
  The task classes of \<^verbatim>\<open>task_generator/tasks.py\<close> are embedded as functions that
  take the instance and the environment it acts on and return both, updated, together
  with the exception that left the method, if any. The exceptions that the methods raise
  or let through are the constructors of \<open>error\<close>.
\<close>

datatype error =
    ValueError
  | IndexError
  | KeyError
  | FileNotFoundError
  | AssertionError
  | ServiceException
  | ResetError
  | TimeOut
  | UnboundLocalError
  | OtherException string

text \<open>
  \<open>ResetError\<close> is \<^verbatim>\<open>Exception("reset error!")\<close> and \<open>TimeOut\<close> is
  \<^verbatim>\<open>Exception("TimeOut, User does't provide goal position!")\<close>;
  \<open>ServiceException\<close> is \<^verbatim>\<open>rospy.ServiceException\<close>, and \<open>OtherException\<close>
  stands for any exception of a collaborator that is not a service exception.
\<close>

record pose =
  position_x :: real
  position_y :: real

type_synonym zone = "real \<times> real \<times> real"

text \<open>
  The calls made on the collaborators (robot, obstacle and pedestrian managers, the
  simulator processes and the publishers) are recorded in the order they are made.
  A forbidden-zones argument that the call leaves out is \<open>None\<close>.
\<close>

datatype event =
    GetMap
  | RemoveAllObstacles
  | RegisterRandomStaticObstacles int
  | RegisterRandomDynamicObstacles int "zone list option"
  | SetStartPosGoalPos "(pose \<times> pose) option"
  | SetStartPosRandom
  | KillSimulator
  | GenerateWorld
  | LaunchSimulator
  | WaitForSpawnService
  | SpawnRobot
  | Sleep nat
  | SpawnPeds nat
  | ResetAllPeds
  | GoalPublish pose
  | MvbGoalPublish pose

text \<open>
  The environment shared by all task instances: the parameter server entries
  \<^verbatim>\<open>/task_mode\<close>, \<^verbatim>\<open>/curr_stage\<close>, \<^verbatim>\<open>/last_stage_reached\<close> and \<^verbatim>\<open>actors\<close>
  (\<open>None\<close> when unset), the content of \<^verbatim>\<open>hyperparameters.json\<close> (\<open>None\<close> when the
  file does not exist; only integer fields are kept), and the record of collaborator
  calls.
\<close>

record world =
  task_mode :: "string option"
  curr_stage_param :: "int option"
  last_stage_reached :: "bool option"
  actors :: "int option"
  hyperparams :: "(string \<times> int) list option"
  trace :: "event list"

definition emit :: "event list \<Rightarrow> world \<Rightarrow> world" where
  "emit es w = w\<lparr>trace := trace w @ es\<rparr>"

section \<open>The staged curriculum controller\<close>

text \<open>
  A stage definition of \<^verbatim>\<open>training_curriculum.yaml\<close>; the dictionary of stages is
  an association list from stage index to definition, \<open>len\<close> is its length, and a lookup
  of a missing index raises \<open>KeyError\<close>.
\<close>

record stage =
  static :: int
  dynamic :: int

record random_task =
  num_of_actors :: int

record staged_task = random_task +
  ns :: string
  curr_stage :: int
  stages :: "(int \<times> stage) list"

datatype start_arg = IntArg int | NonInt

datatype curriculum_file = Missing | NotADict | Stages "(int \<times> stage) list"

definition read_stages_from_yaml :: "curriculum_file \<Rightarrow> error + (int \<times> stage) list" where
  "read_stages_from_yaml cf =
     (case cf of
        Missing \<Rightarrow> Inl FileNotFoundError
      | NotADict \<Rightarrow> Inl AssertionError
      | Stages sts \<Rightarrow> Inr sts)"

definition restart_simulator :: "int \<Rightarrow> world \<Rightarrow> world" where
  "restart_simulator n w =
     emit [KillSimulator, GenerateWorld, LaunchSimulator, WaitForSpawnService,
           SpawnRobot, Sleep 10] (w\<lparr>actors := Some n\<rparr>)"

text \<open>
  \<^verbatim>\<open>_initiate_stage\<close>: the comparison is with the entry of index \<open>curr_stage - 1\<close>,
  which is read only when \<open>curr_stage\<close> is not 1 (the \<^verbatim>\<open>or\<close> short-circuits).
  The subprocess calls and the collaborators are taken to succeed.
\<close>

definition initiate_stage :: "staged_task \<Rightarrow> world \<Rightarrow> error option \<times> world" where
  "initiate_stage t w =
     (let w1 = emit [RemoveAllObstacles] w in
      case map_of (stages t) (curr_stage t) of
        None \<Rightarrow> (Some KeyError, w1)
      | Some sd \<Rightarrow>
          let n_dynamic_obstacles = dynamic sd in
          if curr_stage t = 1 then (None, restart_simulator n_dynamic_obstacles w1)
          else
            (case map_of (stages t) (curr_stage t - 1) of
               None \<Rightarrow> (Some KeyError, w1)
             | Some pd \<Rightarrow>
                 if n_dynamic_obstacles \<noteq> dynamic pd
                 then (None, restart_simulator n_dynamic_obstacles w1)
                 else (None, emit [RegisterRandomDynamicObstacles n_dynamic_obstacles None] w1)))"

text \<open>
  \<^verbatim>\<open>_update_curr_stage_json\<close>: reads the whole document, assigns the key
  \<^verbatim>\<open>curr_stage\<close> (a dictionary assignment: the key is replaced in place or added at
  the end) and writes the document back.
\<close>

definition update_curr_stage_json :: "staged_task \<Rightarrow> world \<Rightarrow> error option \<times> world" where
  "update_curr_stage_json t w =
     (case hyperparams w of
        None \<Rightarrow> (Some FileNotFoundError, w)
      | Some hp \<Rightarrow>
          (None, w\<lparr>hyperparams := Some (AList.update ''curr_stage'' (curr_stage t) hp)\<rparr>))"

definition next_stage :: "staged_task \<Rightarrow> world \<Rightarrow> error option \<times> staged_task \<times> world" where
  "next_stage t w =
     (if curr_stage t < int (length (stages t)) then
        (let t1 = t\<lparr>curr_stage := curr_stage t + 1\<rparr> in
         case initiate_stage t1 w of
           (Some e, w1) \<Rightarrow> (Some e, t1, w1)
         | (None, w1) \<Rightarrow>
             if ns t1 = ''eval_sim'' then
               (case update_curr_stage_json t1 (w1\<lparr>curr_stage_param := Some (curr_stage t1)\<rparr>) of
                  (Some e, w2) \<Rightarrow> (Some e, t1, w2)
                | (None, w2) \<Rightarrow>
                    if curr_stage t1 = int (length (stages t1))
                    then (None, t1, w2\<lparr>last_stage_reached := Some True\<rparr>)
                    else (None, t1, w2))
             else (None, t1, w1))
      else (None, t, w))"

definition previous_stage :: "staged_task \<Rightarrow> world \<Rightarrow> error option \<times> staged_task \<times> world" where
  "previous_stage t w =
     (if curr_stage t > 1 then
        (let w0 = w\<lparr>last_stage_reached := Some False\<rparr>;
             t1 = t\<lparr>curr_stage := curr_stage t - 1\<rparr> in
         case initiate_stage t1 w0 of
           (Some e, w1) \<Rightarrow> (Some e, t1, w1)
         | (None, w1) \<Rightarrow>
             if ns t1 = ''eval_sim'' then
               (case update_curr_stage_json t1 (w1\<lparr>curr_stage_param := Some (curr_stage t1)\<rparr>) of
                  (Some e, w2) \<Rightarrow> (Some e, t1, w2)
                | (None, w2) \<Rightarrow> (None, t1, w2))
             else (None, t1, w1))
      else (None, t, w))"

text \<open>
  \<^verbatim>\<open>StagedRandomTask.__init__\<close>, in the order of the source: the stages are read,
  \<^verbatim>\<open>/task_mode\<close> is set, the start stage is checked for its type and its range,
  \<^verbatim>\<open>/curr_stage\<close> is set, \<^verbatim>\<open>hyperparameters.json\<close> has to exist, and the stage is
  initiated. \<open>n_actors\<close> is the value the base class reads for \<^verbatim>\<open>~actors\<close>.
\<close>

definition StagedRandomTask_init ::
  "int \<Rightarrow> string \<Rightarrow> start_arg \<Rightarrow> curriculum_file \<Rightarrow> world \<Rightarrow> (error + staged_task) \<times> world" where
  "StagedRandomTask_init n_actors ns0 start_stage cf w =
     (case read_stages_from_yaml cf of
        Inl e \<Rightarrow> (Inl e, w)
      | Inr sts \<Rightarrow>
          (let w1 = w\<lparr>task_mode := Some ''staged''\<rparr> in
           case start_stage of
             NonInt \<Rightarrow> (Inl ValueError, w1)
           | IntArg s \<Rightarrow>
               if s < 1 \<or> s > int (length sts) then (Inl IndexError, w1)
               else
                 (let w2 = w1\<lparr>curr_stage_param := Some s\<rparr> in
                  if hyperparams w2 = None then (Inl AssertionError, w2)
                  else
                    (let t = \<lparr>num_of_actors = n_actors, ns = ns0, curr_stage = s, stages = sts\<rparr> in
                     case initiate_stage t w2 of
                       (Some e, w3) \<Rightarrow> (Inl e, w3)
                     | (None, w3) \<Rightarrow> (Inr t, w3)))))"

text \<open>
  The two trigger callbacks, called one after the other as the messages arrive; an
  exception that leaves a callback ends the run with the state it left behind.
\<close>

datatype trigger = Advance | Retreat

fun handle_trigger :: "trigger \<Rightarrow> staged_task \<Rightarrow> world \<Rightarrow> error option \<times> staged_task \<times> world" where
  "handle_trigger Advance t w = next_stage t w"
| "handle_trigger Retreat t w = previous_stage t w"

fun run_triggers :: "trigger list \<Rightarrow> staged_task \<Rightarrow> world \<Rightarrow> error option \<times> staged_task \<times> world" where
  "run_triggers [] t w = (None, t, w)"
| "run_triggers (g # gs) t w =
     (case handle_trigger g t w of
        (Some e, t1, w1) \<Rightarrow> (Some e, t1, w1)
      | (None, t1, w1) \<Rightarrow> run_triggers gs t1 w1)"

text \<open>
  A dictionary of stages as the curriculum file is meant to give it: the keys are
  pairwise different and every index from 1 to the number of stages has an entry.
\<close>

definition stages_ok :: "(int \<times> stage) list \<Rightarrow> bool" where
  "stages_ok sts =
     (distinct (map fst sts) \<and> list_all (\<lambda>k. map_of sts k \<noteq> None) [1..int (length sts)])"

definition in_range :: "staged_task \<Rightarrow> bool" where
  "in_range t = (1 \<le> curr_stage t \<and> curr_stage t \<le> int (length (stages t)))"

section \<open>The random task\<close>

text \<open>
  The per-reset output dictionary \<^verbatim>\<open>info\<close>: a key the method does not set is
  \<open>None\<close>.
\<close>

record task_info =
  robot_goal_pos :: "(real \<times> real) option"
  new_scenerio_loaded :: "bool option"
  num_repeats_curr_scene :: "int option"
  max_repeats_curr_scene :: "int option"

definition empty_info :: task_info where
  "empty_info = \<lparr>robot_goal_pos = None, new_scenerio_loaded = None,
                  num_repeats_curr_scene = None, max_repeats_curr_scene = None\<rparr>"

text \<open>
  What the collaborators do in one pass through the \<^verbatim>\<open>try\<close> block of
  \<^verbatim>\<open>RandomTask.reset\<close>: \<^verbatim>\<open>set_start_pos_goal_pos\<close> returns the two poses or
  raises, \<^verbatim>\<open>remove_all_obstacles\<close> and \<^verbatim>\<open>register_random_dynamic_obstacles\<close>
  return or raise. A call is recorded when it is made, also when it raises.
\<close>

record attempt =
  set_start_pos_goal_pos_result :: "error + pose \<times> pose"
  remove_all_obstacles_result :: "error option"
  register_result :: "error option"

definition max_fail_times :: nat where
  "max_fail_times = 3"

definition try_block ::
  "real \<Rightarrow> 'a random_task_scheme \<Rightarrow> attempt \<Rightarrow> world \<Rightarrow> (error + pose \<times> pose) \<times> world" where
  "try_block ROBOT_RADIUS t a w =
     (let w1 = emit [SetStartPosGoalPos None] w in
      case set_start_pos_goal_pos_result a of
        Inl e \<Rightarrow> (Inl e, w1)
      | Inr (start_pos, goal_pos) \<Rightarrow>
          (let w2 = emit [RemoveAllObstacles] w1 in
           case remove_all_obstacles_result a of
             Some e \<Rightarrow> (Inl e, w2)
           | None \<Rightarrow>
               (let w3 = emit [RegisterRandomDynamicObstacles (num_of_actors t)
                                 (Some [(position_x start_pos, position_y start_pos, ROBOT_RADIUS),
                                        (position_x goal_pos, position_y goal_pos, ROBOT_RADIUS)])] w2 in
                case register_result a of
                  Some e \<Rightarrow> (Inl e, w3)
                | None \<Rightarrow> (Inr (start_pos, goal_pos), w3))))"

text \<open>
  The exception that leaves the \<^verbatim>\<open>try\<close> block in a pass, if any: the first one
  raised by the three calls.
\<close>

definition attempt_raises :: "attempt \<Rightarrow> error option" where
  "attempt_raises a =
     (case set_start_pos_goal_pos_result a of
        Inl e \<Rightarrow> Some e
      | Inr p \<Rightarrow>
          (case remove_all_obstacles_result a of
             Some e \<Rightarrow> Some e
           | None \<Rightarrow> register_result a))"

text \<open>
  The \<^verbatim>\<open>while fail_times < max_fail_times\<close> loop. The collaborators' behaviour in
  the pass entered with \<open>fail_times = i\<close> is \<open>env i\<close> (every pass that does not leave
  the loop adds one to \<open>fail_times\<close>). The result is the exception that left the
  loop, if any, the value of \<open>fail_times\<close>, \<open>goal_pos\<close> when the loop was left by
  \<^verbatim>\<open>break\<close>, and the environment.
\<close>

function reset_loop ::
  "real \<Rightarrow> 'a random_task_scheme \<Rightarrow> (nat \<Rightarrow> attempt) \<Rightarrow> nat \<Rightarrow> world
     \<Rightarrow> error option \<times> nat \<times> pose option \<times> world" where
  "reset_loop ROBOT_RADIUS t env fail_times w =
     (if fail_times < max_fail_times then
        (case try_block ROBOT_RADIUS t (env fail_times) w of
           (Inr (start_pos, goal_pos), w1) \<Rightarrow> (None, fail_times, Some goal_pos, w1)
         | (Inl e, w1) \<Rightarrow>
             if e = ServiceException
             then reset_loop ROBOT_RADIUS t env (fail_times + 1) w1
             else (Some e, fail_times, None, w1))
      else (None, fail_times, None, w))"
  by pat_completeness auto
termination
  by (relation "measure (\<lambda>(r, t, env, fail_times, w). max_fail_times - fail_times)") auto

declare reset_loop.simps [simp del]

definition RandomTask_reset ::
  "real \<Rightarrow> 'a random_task_scheme \<Rightarrow> (nat \<Rightarrow> attempt) \<Rightarrow> world \<Rightarrow> (error + task_info) \<times> world" where
  "RandomTask_reset ROBOT_RADIUS t env w =
     (case reset_loop ROBOT_RADIUS t env 0 w of
        (Some e, fail_times, g, w1) \<Rightarrow> (Inl e, w1)
      | (None, fail_times, g, w1) \<Rightarrow>
          if fail_times = max_fail_times then (Inl ResetError, w1)
          else
            (case g of
               None \<Rightarrow> (Inl UnboundLocalError, w1)
             | Some goal_pos \<Rightarrow>
                 (Inr (empty_info\<lparr>robot_goal_pos := Some (position_x goal_pos, position_y goal_pos)\<rparr>),
                  w1)))"

definition RandomTask_init :: "int option \<Rightarrow> int \<Rightarrow> random_task" where
  "RandomTask_init private_actors n_obs_dynamic =
     \<lparr>num_of_actors = (case private_actors of None \<Rightarrow> n_obs_dynamic | Some a \<Rightarrow> a)\<rparr>"

section \<open>The manual task\<close>

record manual_task =
  goal :: pose
  new_goal_received :: bool
  manual_num_of_actors :: int

definition ManualTask_init :: "int option \<Rightarrow> manual_task" where
  "ManualTask_init private_actors =
     \<lparr>goal = \<lparr>position_x = 0, position_y = 0\<rparr>, new_goal_received = False,
      manual_num_of_actors = (case private_actors of None \<Rightarrow> 3 | Some a \<Rightarrow> a)\<rparr>"

definition set_goal_callback :: "pose \<Rightarrow> manual_task \<Rightarrow> manual_task" where
  "set_goal_callback g m = m\<lparr>goal := g, new_goal_received := True\<rparr>"

text \<open>
  One pass of the \<^verbatim>\<open>while True\<close> loop of \<^verbatim>\<open>ManualTask.reset\<close> meets: the pose
  \<^verbatim>\<open>set_start_pos_random\<close> returns, the goals that \<^verbatim>\<open>_set_goal_callback\<close>
  delivers before the 60 second wait of this pass is over (none: the wait times out,
  unless the flag was already set), and whether the first of the two publishers raises.
\<close>

record manual_round =
  start_pos_random :: pose
  published_goals :: "pose list"
  goal_pub_result :: "error option"

text \<open>
  The two publish calls sit in a \<^verbatim>\<open>try\<close> whose handler only logs: an exception of
  the first skips the second, and none leaves the block.
\<close>

definition publish_goal :: "manual_round \<Rightarrow> pose \<Rightarrow> world \<Rightarrow> world" where
  "publish_goal r g w =
     (case goal_pub_result r of
        Some e \<Rightarrow> emit [GoalPublish g] w
      | None \<Rightarrow> emit [GoalPublish g, MvbGoalPublish g] w)"

text \<open>
  The loop has no \<^verbatim>\<open>break\<close> and no \<^verbatim>\<open>return\<close>: a pass that got its goal is
  followed by the next pass. The passes are given as a list; the result is \<open>None\<close>
  when the loop is still running after the last of them, \<open>Some (Inl e)\<close> when the
  exception \<open>e\<close> left the method and \<open>Some (Inr ())\<close> when the method returned.
\<close>

fun ManualTask_reset ::
  "real \<Rightarrow> manual_round list \<Rightarrow> manual_task \<Rightarrow> world \<Rightarrow> (error + unit) option \<times> manual_task \<times> world" where
  "ManualTask_reset ROBOT_RADIUS [] m w = (None, m, w)"
| "ManualTask_reset ROBOT_RADIUS (r # rs) m w =
     (let start_pos = start_pos_random r;
          w1 = emit [RemoveAllObstacles, SetStartPosRandom,
                     RegisterRandomDynamicObstacles (manual_num_of_actors m)
                       (Some [(position_x start_pos, position_y start_pos, ROBOT_RADIUS)])] w;
          m1 = fold set_goal_callback (published_goals r) m in
      if \<not> new_goal_received m1 then (Some (Inl TimeOut), m1, w1)
      else
        (let m2 = m1\<lparr>new_goal_received := False\<rparr> in
         ManualTask_reset ROBOT_RADIUS rs m2 (publish_goal r (goal m2) w1)))"

section \<open>The scenario task\<close>

record scenario =
  robotPosition :: "real \<times> real"
  robotGoal :: "real \<times> real"
  pedsimAgents :: "string list"

record scenario_task =
  task_scenario :: scenario
  pedsim_manager :: bool
  reset_count :: int

text \<open>
  \<open>pedsim_manager\<close> tells whether the attribute is set (it is \<^verbatim>\<open>None\<close> when the
  scenario has no agents).
\<close>

definition ScenarioTask_init :: "scenario \<Rightarrow> world \<Rightarrow> scenario_task \<times> world" where
  "ScenarioTask_init sc w =
     (if length (pedsimAgents sc) > 0
      then (\<lparr>task_scenario = sc, pedsim_manager = True, reset_count = 0\<rparr>,
            emit [SpawnPeds (length (pedsimAgents sc))] w)
      else (\<lparr>task_scenario = sc, pedsim_manager = False, reset_count = 0\<rparr>, w))"

record scenario_call =
  reset_all_peds_result :: "error option"
  set_pose_result :: "error option"

definition as_pose :: "real \<times> real \<Rightarrow> pose" where
  "as_pose p = \<lparr>position_x = fst p, position_y = snd p\<rparr>"

definition ScenarioTask_reset ::
  "scenario_call \<Rightarrow> scenario_task \<Rightarrow> world \<Rightarrow> (error + task_info) \<times> scenario_task \<times> world" where
  "ScenarioTask_reset c t w =
     (let t1 = t\<lparr>reset_count := reset_count t + 1\<rparr>;
          w1 = (if pedsim_manager t1 then emit [ResetAllPeds] w else w) in
      case (if pedsim_manager t1 then reset_all_peds_result c else None) of
        Some e \<Rightarrow> (Inl e, t1, w1)
      | None \<Rightarrow>
          (let w2 = emit [SetStartPosGoalPos
                            (Some (as_pose (robotPosition (task_scenario t1)),
                                   as_pose (robotGoal (task_scenario t1))))] w1 in
           case set_pose_result c of
             Some e \<Rightarrow> (Inl e, t1, w2)
           | None \<Rightarrow>
               (Inr \<lparr>robot_goal_pos = Some (robotGoal (task_scenario t1)),
                     new_scenerio_loaded = (if reset_count t1 = 1 then Some True else Some False),
                     num_repeats_curr_scene = Some (reset_count t1),
                     max_repeats_curr_scene = Some 1000\<rparr>,
                t1, w2)))"

text \<open>
  Successive calls of \<^verbatim>\<open>reset\<close> on one instance, whatever each of them returns or
  raises; the results of the calls are collected in order.
\<close>

fun scenario_resets ::
  "scenario_call list \<Rightarrow> scenario_task \<Rightarrow> world \<Rightarrow> (error + task_info) list \<times> scenario_task \<times> world" where
  "scenario_resets [] t w = ([], t, w)"
| "scenario_resets (c # cs) t w =
     (case ScenarioTask_reset c t w of
        (r, t1, w1) \<Rightarrow>
          (case scenario_resets cs t1 w1 of (rs, t2, w2) \<Rightarrow> (r # rs, t2, w2)))"

text \<open>
  The instance and the environment after the construction from the scenario \<open>sc\<close> and
  the calls \<open>cs\<close> of \<^verbatim>\<open>reset\<close>.
\<close>

definition scenario_after :: "scenario \<Rightarrow> world \<Rightarrow> scenario_call list \<Rightarrow> scenario_task \<times> world" where
  "scenario_after sc w0 cs =
     (case ScenarioTask_init sc w0 of (t0, w1) \<Rightarrow> snd (scenario_resets cs t0 w1))"

section \<open>The task factory\<close>

datatype task =
    Random random_task
  | Staged staged_task
  | Scenario scenario_task
  | Manual manual_task

text \<open>
  What \<^verbatim>\<open>get_predefined_task\<close> reads besides its arguments: the outcome of the
  \<^verbatim>\<open>/static_map\<close> service call, the private parameter \<^verbatim>\<open>~actors\<close> and the module
  constant \<^verbatim>\<open>N_OBS\<close>. \<open>PATHS\<close> is given by the content of the two files it names.
\<close>

record factory_env =
  get_map_result :: "error option"
  private_actors_param :: "int option"
  N_OBS_static :: int
  N_OBS_dynamic :: int

record paths =
  curriculum :: curriculum_file
  scenario_file :: scenario

text \<open>
  The four \<^verbatim>\<open>if\<close> statements of the source test \<open>mode\<close> against four different
  literals, so at most one of them runs; \<open>task\<close> keeps its initial value \<^verbatim>\<open>None\<close>
  when none does, and that value is returned.
\<close>

definition get_predefined_task ::
  "factory_env \<Rightarrow> string \<Rightarrow> string \<Rightarrow> start_arg \<Rightarrow> paths \<Rightarrow> world \<Rightarrow> (error + task option) \<times> world" where
  "get_predefined_task fe ns0 mode start_stage PATHS w =
     (let w0 = emit [GetMap] w in
      case get_map_result fe of
        Some e \<Rightarrow> (Inl e, w0)
      | None \<Rightarrow>
          if mode = ''random'' then
            (Inr (Some (Random (RandomTask_init (private_actors_param fe) (N_OBS_dynamic fe)))),
             emit [RegisterRandomStaticObstacles (N_OBS_static fe)] (w0\<lparr>task_mode := Some ''random''\<rparr>))
          else if mode = ''staged'' then
            (case StagedRandomTask_init
                    (num_of_actors (RandomTask_init (private_actors_param fe) (N_OBS_dynamic fe)))
                    ns0 start_stage (curriculum PATHS) (w0\<lparr>task_mode := Some ''staged''\<rparr>) of
               (Inl e, w1) \<Rightarrow> (Inl e, w1)
             | (Inr t, w1) \<Rightarrow> (Inr (Some (Staged t)), w1))
          else if mode = ''scenario'' then
            (case ScenarioTask_init (scenario_file PATHS)
                    (emit [RegisterRandomStaticObstacles (N_OBS_static fe)]
                       (w0\<lparr>task_mode := Some ''scenario''\<rparr>)) of
               (t, w1) \<Rightarrow> (Inr (Some (Scenario t)), w1))
          else if mode = ''manual'' then
            (Inr (Some (Manual (ManualTask_init (private_actors_param fe)))),
             w0\<lparr>task_mode := Some ''manual''\<rparr>)
          else (Inr None, w0))"

section \<open>Concrete curricula and environments\<close>

definition curriculum_3 :: "(int \<times> stage) list" where
  "curriculum_3 =
     [(1, \<lparr>static = 4, dynamic = 2\<rparr>), (2, \<lparr>static = 6, dynamic = 2\<rparr>),
      (3, \<lparr>static = 8, dynamic = 4\<rparr>)]"

definition world_0 :: world where
  "world_0 = \<lparr>task_mode = None, curr_stage_param = None, last_stage_reached = None,
              actors = None, hyperparams = Some [(''curr_stage'', 1)], trace = []\<rparr>"

definition controller_at :: "string \<Rightarrow> int \<Rightarrow> staged_task" where
  "controller_at n s = \<lparr>num_of_actors = 3, ns = n, curr_stage = s, stages = curriculum_3\<rparr>"

definition curriculum_late :: "(int \<times> stage) list" where
  "curriculum_late =
     [(1, \<lparr>static = 4, dynamic = 2\<rparr>), (2, \<lparr>static = 6, dynamic = 4\<rparr>),
      (3, \<lparr>static = 8, dynamic = 4\<rparr>)]"

definition pose_a :: pose where
  "pose_a = \<lparr>position_x = 1, position_y = 2\<rparr>"

definition pose_b :: pose where
  "pose_b = \<lparr>position_x = 5, position_y = 6\<rparr>"

definition attempt_ok :: attempt where
  "attempt_ok = \<lparr>set_start_pos_goal_pos_result = Inr (pose_a, pose_b),
                 remove_all_obstacles_result = None, register_result = None\<rparr>"

definition attempt_service_fail :: attempt where
  "attempt_service_fail = \<lparr>set_start_pos_goal_pos_result = Inr (pose_a, pose_b),
                           remove_all_obstacles_result = None,
                           register_result = Some ServiceException\<rparr>"

definition attempt_other_fail :: attempt where
  "attempt_other_fail = \<lparr>set_start_pos_goal_pos_result = Inr (pose_a, pose_b),
                         remove_all_obstacles_result = None,
                         register_result = Some (OtherException ''ValueError'')\<rparr>"

definition always_service_fail :: "nat \<Rightarrow> attempt" where
  "always_service_fail i = attempt_service_fail"

definition two_failures_then_ok :: "nat \<Rightarrow> attempt" where
  "two_failures_then_ok i = (if i < 2 then attempt_service_fail else attempt_ok)"

definition failure_then_other :: "nat \<Rightarrow> attempt" where
  "failure_then_other i = (if i < 1 then attempt_service_fail else attempt_other_fail)"

definition failure_then_other_then_ok :: "nat \<Rightarrow> attempt" where
  "failure_then_other_then_ok i =
     (if i < 1 then attempt_service_fail else if i = 1 then attempt_other_fail else attempt_ok)"

definition scenario_demo :: scenario where
  "scenario_demo = \<lparr>robotPosition = (0, 0), robotGoal = (3, 4), pedsimAgents = [''ped_1'']\<rparr>"

definition call_ok :: scenario_call where
  "call_ok = \<lparr>reset_all_peds_result = None, set_pose_result = None\<rparr>"

definition call_fail :: scenario_call where
  "call_fail = \<lparr>reset_all_peds_result = None, set_pose_result = Some ServiceException\<rparr>"

definition factory_env_ok :: factory_env where
  "factory_env_ok = \<lparr>get_map_result = None, private_actors_param = None,
                     N_OBS_static = 10, N_OBS_dynamic = 3\<rparr>"

definition paths_demo :: paths where
  "paths_demo = \<lparr>curriculum = Stages curriculum_3, scenario_file = scenario_demo\<rparr>"

definition round_with_goal :: manual_round where
  "round_with_goal = \<lparr>start_pos_random = pose_a, published_goals = [pose_b],
                      goal_pub_result = None\<rparr>"

definition round_silent :: manual_round where
  "round_silent = \<lparr>start_pos_random = pose_a, published_goals = [], goal_pub_result = None\<rparr>"

section \<open>Properties of the staged curriculum controller\<close>


lemma stages_ok_lookup:
  "stages_ok sts \<Longrightarrow> 1 \<le> k \<Longrightarrow> k \<le> int (length sts) \<Longrightarrow> \<exists>sd. map_of sts k = Some sd"
  by (auto simp: stages_ok_def list_all_iff)

lemma initiate_stage_ok:
  assumes "stages_ok (stages t)" and "in_range t"
  shows "fst (initiate_stage t w) = None"
proof -
  obtain sd where a: "map_of (stages t) (curr_stage t) = Some sd"
    using assms stages_ok_lookup [of "stages t" "curr_stage t"] by (auto simp: in_range_def)
  show ?thesis
  proof (cases "curr_stage t = 1")
    case True
    with a show ?thesis by (simp add: initiate_stage_def Let_def)
  next
    case False
    then obtain pd where b: "map_of (stages t) (curr_stage t - 1) = Some pd"
      using assms stages_ok_lookup [of "stages t" "curr_stage t - 1"] by (auto simp: in_range_def)
    with a False show ?thesis by (simp add: initiate_stage_def Let_def)
  qed
qed

lemma initiate_stage_frame:
  "hyperparams (snd (initiate_stage t w)) = hyperparams w"
  "last_stage_reached (snd (initiate_stage t w)) = last_stage_reached w"
  "curr_stage_param (snd (initiate_stage t w)) = curr_stage_param w"
  by (simp_all add: initiate_stage_def restart_simulator_def emit_def Let_def split: option.splits)

lemma next_stage_curr_stage:
  "curr_stage (fst (snd (next_stage t w))) =
     (if curr_stage t < int (length (stages t)) then curr_stage t + 1 else curr_stage t)"
  by (simp add: next_stage_def Let_def split: prod.splits option.splits)

lemma next_stage_stages: "stages (fst (snd (next_stage t w))) = stages t"
  by (simp add: next_stage_def Let_def split: prod.splits option.splits)

lemma previous_stage_curr_stage:
  "curr_stage (fst (snd (previous_stage t w))) =
     (if curr_stage t > 1 then curr_stage t - 1 else curr_stage t)"
  by (simp add: previous_stage_def Let_def split: prod.splits option.splits)

lemma previous_stage_stages: "stages (fst (snd (previous_stage t w))) = stages t"
  by (simp add: previous_stage_def Let_def split: prod.splits option.splits)

lemma handle_trigger_in_range:
  "in_range t \<Longrightarrow> in_range (fst (snd (handle_trigger g t w)))"
  by (cases g)
     (simp_all add: in_range_def next_stage_curr_stage next_stage_stages
        previous_stage_curr_stage previous_stage_stages)

lemma handle_trigger_stages: "stages (fst (snd (handle_trigger g t w))) = stages t"
  by (cases g) (simp_all add: next_stage_stages previous_stage_stages)

lemma run_triggers_in_range:
  "in_range t \<Longrightarrow> in_range (fst (snd (run_triggers gs t w)))"
proof (induction gs arbitrary: t w)
  case Nil
  then show ?case by simp
next
  case (Cons g gs)
  obtain r t1 w1 where h: "handle_trigger g t w = (r, t1, w1)"
    by (cases "handle_trigger g t w")
  have "in_range t1"
    using handle_trigger_in_range [OF Cons.prems, of g w] h by simp
  then show ?case
    using Cons.IH [of t1 w1] h by (cases r) simp_all
qed

lemma run_triggers_stages: "stages (fst (snd (run_triggers gs t w))) = stages t"
proof (induction gs arbitrary: t w)
  case Nil
  then show ?case by simp
next
  case (Cons g gs)
  obtain r t1 w1 where h: "handle_trigger g t w = (r, t1, w1)"
    by (cases "handle_trigger g t w")
  have "stages t1 = stages t"
    using handle_trigger_stages [of g t w] h by simp
  then show ?case
    using Cons.IH [of t1 w1] h by (cases r) simp_all
qed

lemma next_stage_at_last:
  "curr_stage t = int (length (stages t)) \<Longrightarrow> next_stage t w = (None, t, w)"
  by (simp add: next_stage_def)

lemma previous_stage_at_first:
  "curr_stage t = 1 \<Longrightarrow> previous_stage t w = (None, t, w)"
  by (simp add: previous_stage_def)

lemma init_in_range:
  assumes "stages_ok sts" and "hyperparams w \<noteq> None" and "1 \<le> s" and "s \<le> int (length sts)"
  shows "\<exists>t w'. StagedRandomTask_init a n (IntArg s) (Stages sts) w = (Inr t, w')
           \<and> curr_stage t = s \<and> stages t = sts"
proof -
  let ?t = "\<lparr>num_of_actors = a, ns = n, curr_stage = s, stages = sts\<rparr>"
  let ?w = "w\<lparr>task_mode := Some ''staged'', curr_stage_param := Some s\<rparr>"
  have "fst (initiate_stage ?t ?w) = None"
    using assms by (intro initiate_stage_ok) (simp_all add: in_range_def)
  then obtain w3 where "initiate_stage ?t ?w = (None, w3)"
    by (cases "initiate_stage ?t ?w") simp
  then show ?thesis
    using assms by (simp add: StagedRandomTask_init_def read_stages_from_yaml_def Let_def)
qed

lemma init_out_of_range:
  assumes "\<not> (1 \<le> s \<and> s \<le> int (length sts))"
  shows "fst (StagedRandomTask_init a n (IntArg s) (Stages sts) w) = Inl IndexError"
  using assms by (auto simp: StagedRandomTask_init_def read_stages_from_yaml_def Let_def)


lemma update_curr_stage_json_ok:
  "hyperparams w \<noteq> None \<Longrightarrow>
   \<exists>w'. update_curr_stage_json t w = (None, w') \<and> hyperparams w' \<noteq> None"
  by (auto simp: update_curr_stage_json_def)

lemma next_stage_ok:
  assumes "stages_ok (stages t)" and "in_range t" and "hyperparams w \<noteq> None"
    and "curr_stage t < int (length (stages t))"
  shows "\<exists>w'. next_stage t w = (None, t\<lparr>curr_stage := curr_stage t + 1\<rparr>, w') \<and> hyperparams w' \<noteq> None"
proof -
  let ?t1 = "t\<lparr>curr_stage := curr_stage t + 1\<rparr>"
  have "fst (initiate_stage ?t1 w) = None"
    using assms by (intro initiate_stage_ok) (simp_all add: in_range_def)
  then obtain w1 where i: "initiate_stage ?t1 w = (None, w1)"
    by (cases "initiate_stage ?t1 w") simp
  have h1: "hyperparams w1 \<noteq> None"
    using initiate_stage_frame(1) [of ?t1 w] i assms(3) by simp
  show ?thesis
  proof (cases "ns t = ''eval_sim''")
    case False
    with i h1 assms(4) show ?thesis by (simp add: next_stage_def Let_def)
  next
    case True
    let ?w1 = "w1\<lparr>curr_stage_param := Some (curr_stage t + 1)\<rparr>"
    obtain w2 where u: "update_curr_stage_json ?t1 ?w1 = (None, w2)" and h2: "hyperparams w2 \<noteq> None"
      using update_curr_stage_json_ok [of ?w1 ?t1] h1 by auto
    with i True assms(4) show ?thesis by (simp add: next_stage_def Let_def)
  qed
qed

lemma previous_stage_ok:
  assumes "stages_ok (stages t)" and "in_range t" and "hyperparams w \<noteq> None"
    and "1 < curr_stage t"
  shows "\<exists>w'. previous_stage t w = (None, t\<lparr>curr_stage := curr_stage t - 1\<rparr>, w') \<and> hyperparams w' \<noteq> None"
proof -
  let ?t1 = "t\<lparr>curr_stage := curr_stage t - 1\<rparr>"
  let ?w0 = "w\<lparr>last_stage_reached := Some False\<rparr>"
  have "fst (initiate_stage ?t1 ?w0) = None"
    using assms by (intro initiate_stage_ok) (simp_all add: in_range_def)
  then obtain w1 where i: "initiate_stage ?t1 ?w0 = (None, w1)"
    by (cases "initiate_stage ?t1 ?w0") simp
  have h1: "hyperparams w1 \<noteq> None"
    using initiate_stage_frame(1) [of ?t1 ?w0] i assms(3) by simp
  show ?thesis
  proof (cases "ns t = ''eval_sim''")
    case False
    with i h1 assms(4) show ?thesis by (simp add: previous_stage_def Let_def)
  next
    case True
    let ?w1 = "w1\<lparr>curr_stage_param := Some (curr_stage t - 1)\<rparr>"
    obtain w2 where u: "update_curr_stage_json ?t1 ?w1 = (None, w2)" and h2: "hyperparams w2 \<noteq> None"
      using update_curr_stage_json_ok [of ?w1 ?t1] h1 by auto
    with i True assms(4) show ?thesis by (simp add: previous_stage_def Let_def)
  qed
qed

lemma advance_saturating:
  assumes "stages_ok (stages t)" and "in_range t" and "hyperparams w \<noteq> None"
  shows "\<exists>w'. run_triggers (replicate k Advance @ gs) t w
               = run_triggers gs
                   (t\<lparr>curr_stage := min (int (length (stages t))) (curr_stage t + int k)\<rparr>) w'
             \<and> hyperparams w' \<noteq> None"
  using assms
proof (induction k arbitrary: t w)
  case 0
  then have "t\<lparr>curr_stage := min (int (length (stages t))) (curr_stage t + int 0)\<rparr> = t"
    by (simp add: in_range_def min_def)
  with 0 show ?case by auto
next
  case (Suc k)
  show ?case
  proof (cases "curr_stage t < int (length (stages t))")
    case True
    let ?t1 = "t\<lparr>curr_stage := curr_stage t + 1\<rparr>"
    obtain w1 where n: "next_stage t w = (None, ?t1, w1)" and h: "hyperparams w1 \<noteq> None"
      using next_stage_ok [of t w] Suc.prems True by auto
    have "\<exists>w'. run_triggers (replicate k Advance @ gs) ?t1 w1
               = run_triggers gs
                   (?t1\<lparr>curr_stage := min (int (length (stages ?t1))) (curr_stage ?t1 + int k)\<rparr>) w'
             \<and> hyperparams w' \<noteq> None"
      using Suc.prems h True by (intro Suc.IH) (simp_all add: in_range_def)
    then show ?thesis using n by (simp add: algebra_simps)
  next
    case False
    then have c: "curr_stage t = int (length (stages t))"
      using Suc.prems(2) by (simp add: in_range_def)
    have n: "next_stage t w = (None, t, w)"
      using c by (simp add: next_stage_def)
    have "\<exists>w'. run_triggers (replicate k Advance @ gs) t w
               = run_triggers gs
                   (t\<lparr>curr_stage := min (int (length (stages t))) (curr_stage t + int k)\<rparr>) w'
             \<and> hyperparams w' \<noteq> None"
      using Suc.prems by (intro Suc.IH)
    then show ?thesis using n c by (simp add: min_def)
  qed
qed

lemma retreat_saturating:
  assumes "stages_ok (stages t)" and "in_range t" and "hyperparams w \<noteq> None"
  shows "\<exists>w'. run_triggers (replicate k Retreat @ gs) t w
               = run_triggers gs (t\<lparr>curr_stage := max 1 (curr_stage t - int k)\<rparr>) w'
             \<and> hyperparams w' \<noteq> None"
  using assms
proof (induction k arbitrary: t w)
  case 0
  then have "t\<lparr>curr_stage := max 1 (curr_stage t - int 0)\<rparr> = t"
    by (simp add: in_range_def max_def)
  with 0 show ?case by auto
next
  case (Suc k)
  show ?case
  proof (cases "1 < curr_stage t")
    case True
    let ?t1 = "t\<lparr>curr_stage := curr_stage t - 1\<rparr>"
    obtain w1 where n: "previous_stage t w = (None, ?t1, w1)" and h: "hyperparams w1 \<noteq> None"
      using previous_stage_ok [of t w] Suc.prems True by auto
    have "\<exists>w'. run_triggers (replicate k Retreat @ gs) ?t1 w1
               = run_triggers gs (?t1\<lparr>curr_stage := max 1 (curr_stage ?t1 - int k)\<rparr>) w'
             \<and> hyperparams w' \<noteq> None"
      using Suc.prems h True by (intro Suc.IH) (simp_all add: in_range_def)
    then show ?thesis using n by (simp add: algebra_simps)
  next
    case False
    then have c: "curr_stage t = 1"
      using Suc.prems(2) by (simp add: in_range_def)
    have n: "previous_stage t w = (None, t, w)"
      using c by (simp add: previous_stage_def)
    have "\<exists>w'. run_triggers (replicate k Retreat @ gs) t w
               = run_triggers gs (t\<lparr>curr_stage := max 1 (curr_stage t - int k)\<rparr>) w'
             \<and> hyperparams w' \<noteq> None"
      using Suc.prems by (intro Suc.IH)
    moreover have "max 1 (curr_stage t - int k) = 1" "max 1 (curr_stage t - int (Suc k)) = 1"
      using c by simp_all
    ultimately show ?thesis using n by simp
  qed
qed

text \<open>
  Claim C2. With a well-formed curriculum of \<open>N\<close> stages and an existing
  \<^verbatim>\<open>hyperparameters.json\<close>, constructing the controller with the integer start
  stage \<open>s\<close> succeeds with \<open>curr_stage = s\<close> when \<open>1 \<le> s \<le> N\<close> and raises
  \<open>IndexError\<close> otherwise; after any sequence of advance and retreat triggers on the
  constructed controller the stage is still within \<open>[1, N]\<close>; an advance trigger at
  stage \<open>N\<close> changes neither the controller nor the environment (so a
  last-stage-reached flag that is true stays true), and neither does a retreat trigger
  at stage 1.
\<close>
theorem start_stage_validated_and_stage_bounded:
  assumes "stages_ok sts" and "hyperparams w \<noteq> None"
  shows "(if 1 \<le> s \<and> s \<le> int (length sts)
          then \<exists>t w'. StagedRandomTask_init a n (IntArg s) (Stages sts) w = (Inr t, w')
                 \<and> curr_stage t = s
                 \<and> (\<forall>gs v. stages (fst (snd (run_triggers gs t v))) = sts
                       \<and> 1 \<le> curr_stage (fst (snd (run_triggers gs t v)))
                       \<and> curr_stage (fst (snd (run_triggers gs t v))) \<le> int (length sts))
          else fst (StagedRandomTask_init a n (IntArg s) (Stages sts) w) = Inl IndexError)
       \<and> next_stage (u\<lparr>curr_stage := int (length (stages u))\<rparr>) v
           = (None, u\<lparr>curr_stage := int (length (stages u))\<rparr>, v)
       \<and> previous_stage (u\<lparr>curr_stage := 1\<rparr>) v = (None, u\<lparr>curr_stage := 1\<rparr>, v)"
proof (intro conjI)
  show "if 1 \<le> s \<and> s \<le> int (length sts)
          then \<exists>t w'. StagedRandomTask_init a n (IntArg s) (Stages sts) w = (Inr t, w')
                 \<and> curr_stage t = s
                 \<and> (\<forall>gs v. stages (fst (snd (run_triggers gs t v))) = sts
                       \<and> 1 \<le> curr_stage (fst (snd (run_triggers gs t v)))
                       \<and> curr_stage (fst (snd (run_triggers gs t v))) \<le> int (length sts))
          else fst (StagedRandomTask_init a n (IntArg s) (Stages sts) w) = Inl IndexError"
  proof (cases "1 \<le> s \<and> s \<le> int (length sts)")
    case True
    then obtain t w' where i: "StagedRandomTask_init a n (IntArg s) (Stages sts) w = (Inr t, w')"
      and c: "curr_stage t = s" and s: "stages t = sts"
      using init_in_range [OF assms, of s a n] by auto
    have r: "in_range t" using True c s by (simp add: in_range_def)
    have "stages (fst (snd (run_triggers gs t v))) = sts
            \<and> 1 \<le> curr_stage (fst (snd (run_triggers gs t v)))
            \<and> curr_stage (fst (snd (run_triggers gs t v))) \<le> int (length sts)" for gs v
      using run_triggers_in_range [OF r, of gs v] run_triggers_stages [of gs t v] s
      by (simp add: in_range_def)
    with i c True show ?thesis by auto
  next
    case False
    then show ?thesis using init_out_of_range [of s sts a n w] by auto
  qed
next
  show "next_stage (u\<lparr>curr_stage := int (length (stages u))\<rparr>) v
           = (None, u\<lparr>curr_stage := int (length (stages u))\<rparr>, v)"
    by (simp add: next_stage_def)
next
  show "previous_stage (u\<lparr>curr_stage := 1\<rparr>) v = (None, u\<lparr>curr_stage := 1\<rparr>, v)"
    by (simp add: previous_stage_def)
qed

theorem start_stage_validated_and_stage_bounded_witness:
  "stages_ok curriculum_3 \<and> hyperparams world_0 \<noteq> None
   \<and> (\<exists>t w'. StagedRandomTask_init 3 ''eval_sim'' (IntArg 2) (Stages curriculum_3) world_0 = (Inr t, w')
          \<and> curr_stage t = 2
          \<and> (\<forall>gs v. stages (fst (snd (run_triggers gs t v))) = curriculum_3
                \<and> 1 \<le> curr_stage (fst (snd (run_triggers gs t v)))
                \<and> curr_stage (fst (snd (run_triggers gs t v))) \<le> int (length curriculum_3)))
   \<and> fst (StagedRandomTask_init 3 ''eval_sim'' (IntArg 4) (Stages curriculum_3) world_0) = Inl IndexError
   \<and> next_stage (controller_at ''eval_sim'' 3) world_0 = (None, controller_at ''eval_sim'' 3, world_0)
   \<and> previous_stage (controller_at ''eval_sim'' 1) world_0 = (None, controller_at ''eval_sim'' 1, world_0)"
proof -
  have h1: "stages_ok curriculum_3"
    by (auto simp: stages_ok_def curriculum_3_def list_all_iff)
  have h2: "hyperparams world_0 \<noteq> None"
    by (simp add: world_0_def)
  have len: "int (length curriculum_3) = 3"
    by (simp add: curriculum_3_def)
  have u: "(controller_at ''eval_sim'' 1)\<lparr>curr_stage := int (length (stages (controller_at ''eval_sim'' 1)))\<rparr>
             = controller_at ''eval_sim'' 3"
       "(controller_at ''eval_sim'' 3)\<lparr>curr_stage := 1\<rparr> = controller_at ''eval_sim'' 1"
    by (simp_all add: controller_at_def curriculum_3_def)
  note a = start_stage_validated_and_stage_bounded [OF h1 h2, where s = 2 and a = 3
      and n = "''eval_sim''" and u = "controller_at ''eval_sim'' 1" and v = world_0]
  note b = start_stage_validated_and_stage_bounded [OF h1 h2, where s = 4 and a = 3
      and n = "''eval_sim''" and u = "controller_at ''eval_sim'' 3" and v = world_0]
  from a b h1 h2 show ?thesis
    by (simp add: len u)
qed

text \<open>
  Claim C6, as amended. From a starting stage \<open>s\<close> within \<open>[1, N]\<close>, \<open>k\<close> advance
  triggers followed by \<open>k\<close> retreat triggers run without an exception and leave
  \<open>curr_stage\<close> at \<open>max 1 (min N (s + k) - k)\<close>: the advances saturate at \<open>N\<close> and
  the retreats at 1. This is the starting stage exactly when \<open>s + k \<le> N\<close> or
  \<open>s = 1\<close>.
\<close>

theorem advance_then_retreat_final_stage:
  assumes "stages_ok (stages t)" and "in_range t" and "hyperparams w \<noteq> None"
  shows "fst (run_triggers (replicate k Advance @ replicate k Retreat) t w) = None
         \<and> curr_stage (fst (snd (run_triggers (replicate k Advance @ replicate k Retreat) t w)))
             = max 1 (min (int (length (stages t))) (curr_stage t + int k) - int k)
         \<and> ((curr_stage (fst (snd (run_triggers (replicate k Advance @ replicate k Retreat) t w)))
               = curr_stage t)
             = (curr_stage t + int k \<le> int (length (stages t)) \<or> curr_stage t = 1))"
proof -
  let ?N = "int (length (stages t))"
  let ?t1 = "t\<lparr>curr_stage := min ?N (curr_stage t + int k)\<rparr>"
  obtain w1 where a: "run_triggers (replicate k Advance @ replicate k Retreat) t w
                      = run_triggers (replicate k Retreat) ?t1 w1"
    and h1: "hyperparams w1 \<noteq> None"
    using advance_saturating [OF assms, of k "replicate k Retreat"] by auto
  have "\<exists>w'. run_triggers (replicate k Retreat @ []) ?t1 w1
               = run_triggers [] (?t1\<lparr>curr_stage := max 1 (curr_stage ?t1 - int k)\<rparr>) w'
             \<and> hyperparams w' \<noteq> None"
    using assms h1 by (intro retreat_saturating) (simp_all add: in_range_def)
  then obtain w2 where b: "run_triggers (replicate k Advance @ replicate k Retreat) t w
      = (None, ?t1\<lparr>curr_stage := max 1 (curr_stage ?t1 - int k)\<rparr>, w2)"
    using a by auto
  have r: "1 \<le> curr_stage t" "curr_stage t \<le> ?N"
    using assms(2) by (simp_all add: in_range_def)
  have c: "(max 1 (min ?N (curr_stage t + int k) - int k) = curr_stage t)
             = (curr_stage t + int k \<le> ?N \<or> curr_stage t = 1)"
    using r by (auto simp: max_def min_def)
  show ?thesis using b c by simp
qed

theorem advance_then_retreat_final_stage_witness:
  "stages_ok (stages (controller_at ''eval_sim'' 1)) \<and> in_range (controller_at ''eval_sim'' 1)
   \<and> hyperparams world_0 \<noteq> None
   \<and> fst (run_triggers (replicate 2 Advance @ replicate 2 Retreat) (controller_at ''eval_sim'' 1) world_0) = None
   \<and> curr_stage (fst (snd (run_triggers (replicate 2 Advance @ replicate 2 Retreat)
        (controller_at ''eval_sim'' 1) world_0))) = 1
   \<and> curr_stage (controller_at ''eval_sim'' 1) = 1"
proof -
  have h1: "stages_ok (stages (controller_at ''eval_sim'' 1))"
    by (auto simp: stages_ok_def controller_at_def curriculum_3_def list_all_iff)
  have h2: "in_range (controller_at ''eval_sim'' 1)"
    by (simp add: in_range_def controller_at_def curriculum_3_def)
  have h3: "hyperparams world_0 \<noteq> None"
    by (simp add: world_0_def)
  have c: "curr_stage (controller_at ''eval_sim'' 1) = 1"
    "int (length (stages (controller_at ''eval_sim'' 1))) = 3"
    by (simp_all add: controller_at_def curriculum_3_def)
  note a = advance_then_retreat_final_stage [OF h1 h2 h3, where k = 2]
  have "fst (run_triggers (replicate 2 Advance @ replicate 2 Retreat) (controller_at ''eval_sim'' 1) world_0) = None
   \<and> curr_stage (fst (snd (run_triggers (replicate 2 Advance @ replicate 2 Retreat)
        (controller_at ''eval_sim'' 1) world_0))) = 1"
    using a by (simp add: c)
  with h1 h2 h3 c(1) show ?thesis by blast
qed

theorem advance_then_retreat_saturates:
  "curr_stage (fst (snd (run_triggers (replicate 2 Advance @ replicate 2 Retreat)
       (controller_at ''eval_sim'' 2) world_0))) \<noteq> curr_stage (controller_at ''eval_sim'' 2)"
  by (simp add: numeral_2_eq_2 controller_at_def curriculum_3_def world_0_def next_stage_def
        previous_stage_def initiate_stage_def update_curr_stage_json_def restart_simulator_def
        emit_def Let_def)

section \<open>The re-initiate-stage action and the shared curriculum state\<close>


lemma initiate_stage_restart_iff:
  assumes "map_of (stages t) (curr_stage t) = Some sd"
    and "map_of (stages t) (curr_stage t - 1) = Some pd"
  shows "initiate_stage t w =
           (None,
            if curr_stage t = 1 \<or> dynamic sd \<noteq> dynamic pd
            then restart_simulator (dynamic sd) (emit [RemoveAllObstacles] w)
            else emit [RegisterRandomDynamicObstacles (dynamic sd) None] (emit [RemoveAllObstacles] w))"
  using assms by (simp add: initiate_stage_def Let_def)

lemma initiate_stage_first:
  assumes "map_of (stages t) 1 = Some sd" and "curr_stage t = 1"
  shows "initiate_stage t w = (None, restart_simulator (dynamic sd) (emit [RemoveAllObstacles] w))"
  using assms by (simp add: initiate_stage_def Let_def)

lemma advance_restart_iff:
  assumes "map_of (stages t) (curr_stage t) = Some old" 
    and "map_of (stages t) (curr_stage t + 1) = Some new"
    and "1 \<le> curr_stage t" and "curr_stage t < int (length (stages t))" and "ns t \<noteq> ''eval_sim''"
  shows "snd (snd (next_stage t w)) =
           (if dynamic new \<noteq> dynamic old
            then restart_simulator (dynamic new) (emit [RemoveAllObstacles] w)
            else emit [RegisterRandomDynamicObstacles (dynamic new) None] (emit [RemoveAllObstacles] w))"
  using assms by (simp add: next_stage_def initiate_stage_def Let_def)

text \<open>
  Claim C1, evaluated on retreat triggers. \<^verbatim>\<open>_initiate_stage\<close> compares the target
  stage's dynamic count with the entry of index \<open>curr_stage - 1\<close>, which after a
  retreat is not the stage that was current before. With \<open>curriculum_3\<close> a retreat from
  stage 3 (4 dynamic obstacles) to stage 2 (2 dynamic obstacles) does not restart the
  simulator and registers 2 obstacles in the live world; with \<open>curriculum_late\<close> a
  retreat from stage 3 to stage 2, both with 4 dynamic obstacles, restarts it.
\<close>

theorem retreat_compares_with_wrong_stage:
  "map_of curriculum_3 3 = Some \<lparr>static = 8, dynamic = 4\<rparr>
   \<and> map_of curriculum_3 2 = Some \<lparr>static = 6, dynamic = 2\<rparr>
   \<and> previous_stage (controller_at ''sim_1'' 3) world_0
       = (None, controller_at ''sim_1'' 2,
          world_0\<lparr>last_stage_reached := Some False,
                  trace := [RemoveAllObstacles, RegisterRandomDynamicObstacles 2 None]\<rparr>)
   \<and> map_of curriculum_late 3 = Some \<lparr>static = 8, dynamic = 4\<rparr>
   \<and> map_of curriculum_late 2 = Some \<lparr>static = 6, dynamic = 4\<rparr>
   \<and> previous_stage ((controller_at ''sim_1'' 3)\<lparr>stages := curriculum_late\<rparr>) world_0
       = (None, (controller_at ''sim_1'' 2)\<lparr>stages := curriculum_late\<rparr>,
          world_0\<lparr>last_stage_reached := Some False, actors := Some 4,
                  trace := [RemoveAllObstacles, KillSimulator, GenerateWorld, LaunchSimulator,
                            WaitForSpawnService, SpawnRobot, Sleep 10]\<rparr>)"
  by (simp add: controller_at_def curriculum_3_def curriculum_late_def world_0_def
        previous_stage_def initiate_stage_def restart_simulator_def emit_def Let_def)

lemma non_authoritative_keeps_curr_stage_record:
  assumes "ns t \<noteq> ''eval_sim''"
  shows "hyperparams (snd (snd (handle_trigger g t w))) = hyperparams w
         \<and> curr_stage_param (snd (snd (handle_trigger g t w))) = curr_stage_param w"
  using assms
  by (cases g)
     (auto simp: next_stage_def previous_stage_def initiate_stage_def restart_simulator_def
        emit_def Let_def split: option.splits)

lemma non_authoritative_advance_keeps_flag:
  assumes "ns t \<noteq> ''eval_sim''"
  shows "last_stage_reached (snd (snd (next_stage t w))) = last_stage_reached w"
  using assms
  by (auto simp: next_stage_def initiate_stage_def restart_simulator_def
        emit_def Let_def split: option.splits)

lemma retreat_clears_flag:
  assumes "1 < curr_stage t"
  shows "last_stage_reached (snd (snd (previous_stage t w))) = Some False"
  using assms
  by (auto simp: previous_stage_def initiate_stage_def restart_simulator_def
        update_curr_stage_json_def emit_def Let_def split: option.splits)

text \<open>
  Claim C7, evaluated on a retreat trigger handled by a non-authoritative instance:
  the instance of namespace \<^verbatim>\<open>sim_1\<close> at stage 2 sets the published
  last-stage-reached flag from true to false (the persisted \<^verbatim>\<open>curr_stage\<close> record
  is left as it was).
\<close>

theorem non_authoritative_retreat_clears_flag:
  "ns (controller_at ''sim_1'' 2) \<noteq> ''eval_sim''
   \<and> previous_stage (controller_at ''sim_1'' 2) (world_0\<lparr>last_stage_reached := Some True\<rparr>)
       = (None, controller_at ''sim_1'' 1,
          world_0\<lparr>last_stage_reached := Some False, actors := Some 2,
                  trace := [RemoveAllObstacles, KillSimulator, GenerateWorld, LaunchSimulator,
                            WaitForSpawnService, SpawnRobot, Sleep 10]\<rparr>)"
  by (simp add: controller_at_def curriculum_3_def world_0_def
        previous_stage_def initiate_stage_def restart_simulator_def emit_def Let_def)

section \<open>The retry loop of the random task\<close>



lemma try_block_raises:
  "attempt_raises a = Some e \<Longrightarrow> fst (try_block r t a w) = Inl e"
  by (auto simp: attempt_raises_def try_block_def Let_def split: sum.splits option.splits)

lemma try_block_returns:
  "attempt_raises a = None \<Longrightarrow> set_start_pos_goal_pos_result a = Inr (s, g) \<Longrightarrow>
   fst (try_block r t a w) = Inr (s, g)"
  by (auto simp: attempt_raises_def try_block_def Let_def split: sum.splits option.splits)

lemma reset_loop_service_failures:
  assumes "\<forall>i<k. attempt_raises (env (n + i)) = Some ServiceException"
    and "n + k \<le> max_fail_times"
  shows "\<exists>w'. reset_loop r t env n w = reset_loop r t env (n + k) w'"
  using assms
proof (induction k arbitrary: n w)
  case 0
  then show ?case by auto
next
  case (Suc k)
  have a: "attempt_raises (env n) = Some ServiceException"
    using Suc.prems(1) by (metis add.right_neutral zero_less_Suc)
  obtain w1 where b: "try_block r t (env n) w = (Inl ServiceException, w1)"
    using try_block_raises [OF a, of r t w] by (cases "try_block r t (env n) w") simp
  have c: "reset_loop r t env n w = reset_loop r t env (Suc n) w1"
    using Suc.prems(2) b by (subst reset_loop.simps) simp
  have "\<forall>i<k. attempt_raises (env (Suc n + i)) = Some ServiceException"
    using Suc.prems(1) by (metis Suc_less_eq add_Suc_shift)
  then obtain w' where "reset_loop r t env (Suc n) w1 = reset_loop r t env (Suc n + k) w'"
    using Suc.IH [of "Suc n" w1] Suc.prems(2) by auto
  with c show ?case by auto
qed

lemma reset_loop_exhausted:
  "reset_loop r t env max_fail_times w = (None, max_fail_times, None, w)"
  by (subst reset_loop.simps) simp

lemma reset_loop_break:
  assumes "k < max_fail_times" and "attempt_raises (env k) = None"
    and "set_start_pos_goal_pos_result (env k) = Inr (s, g)"
  shows "\<exists>w'. reset_loop r t env k w = (None, k, Some g, w')"
proof -
  obtain w1 where "try_block r t (env k) w = (Inr (s, g), w1)"
    using try_block_returns [OF assms(2,3), of r t w] by (cases "try_block r t (env k) w") simp
  then show ?thesis using assms(1) by (subst reset_loop.simps) simp
qed

lemma reset_loop_raise:
  assumes "k < max_fail_times" and "attempt_raises (env k) = Some e" and "e \<noteq> ServiceException"
  shows "\<exists>w'. reset_loop r t env k w = (Some e, k, None, w')"
proof -
  obtain w1 where "try_block r t (env k) w = (Inl e, w1)"
    using try_block_raises [OF assms(2), of r t w] by (cases "try_block r t (env k) w") simp
  then show ?thesis using assms(1,3) by (subst reset_loop.simps) simp
qed

lemma reset_loop_cong:
  assumes "\<forall>i. n \<le> i \<and> i \<le> k \<longrightarrow> env' i = env i"
    and "\<forall>i. n \<le> i \<and> i < k \<longrightarrow> attempt_raises (env i) = Some ServiceException"
    and "attempt_raises (env k) \<noteq> Some ServiceException" and "n \<le> k"
  shows "reset_loop r t env' n w = reset_loop r t env n w"
  using assms
proof (induction "k - n" arbitrary: n w)
  case 0
  then have nk: "n = k" by simp
  have e: "env' k = env k" using "0.prems"(1) nk by simp
  have "\<And>w1. \<not> (try_block r t (env k) w = (Inl ServiceException, w1))"
  proof
    fix w1 assume h: "try_block r t (env k) w = (Inl ServiceException, w1)"
    show False
    proof (cases "attempt_raises (env k)")
      case None
      then obtain s g where "set_start_pos_goal_pos_result (env k) = Inr (s, g)"
        by (auto simp: attempt_raises_def split: sum.splits)
      with None h try_block_returns [of "env k" s g r t w] show False by simp
    next
      case (Some e')
      with h try_block_raises [of "env k" e' r t w] "0.prems"(3) show False by simp
    qed
  qed
  then show ?case
    unfolding nk
    by (subst (1 2) reset_loop.simps) (auto simp: e split: prod.splits sum.splits)
next
  case (Suc d)
  then have lt: "n < k" by simp
  have e: "env' n = env n" using Suc.prems(1,4) by simp
  have a: "attempt_raises (env n) = Some ServiceException" using Suc.prems(2) lt by simp
  obtain w1 where b: "try_block r t (env n) w = (Inl ServiceException, w1)"
    using try_block_raises [OF a, of r t w] by (cases "try_block r t (env n) w") simp
  have ih: "reset_loop r t env' (Suc n) w1 = reset_loop r t env (Suc n) w1"
    using Suc.hyps(2) Suc.prems lt by (intro Suc.hyps(1)) auto
  show ?case
    by (subst (1 2) reset_loop.simps) (simp add: e b ih)
qed

text \<open>
  Claim C4. If the \<^verbatim>\<open>try\<close> block of \<^verbatim>\<open>RandomTask.reset\<close> is left by a service
  exception in each of the three passes, \<^verbatim>\<open>reset\<close> raises the terminal
  \<^verbatim>\<open>Exception("reset error!")\<close>; if it is left so in fewer than three passes and the
  next pass succeeds, \<^verbatim>\<open>reset\<close> returns the info record whose only key is
  \<^verbatim>\<open>robot_goal_pos\<close>, the goal position sampled in the successful pass.
\<close>

theorem random_reset_retry_bound:
  "((\<forall>i<max_fail_times. attempt_raises (env i) = Some ServiceException)
      \<longrightarrow> fst (RandomTask_reset r t env w) = Inl ResetError)
   \<and> (k < max_fail_times \<and> (\<forall>i<k. attempt_raises (env i) = Some ServiceException)
        \<and> attempt_raises (env k) = None \<and> set_start_pos_goal_pos_result (env k) = Inr (s, g)
      \<longrightarrow> fst (RandomTask_reset r t env w)
            = Inr (empty_info\<lparr>robot_goal_pos := Some (position_x g, position_y g)\<rparr>))"
proof (intro conjI impI)
  assume "\<forall>i<max_fail_times. attempt_raises (env i) = Some ServiceException"
  then obtain w' where "reset_loop r t env 0 w = reset_loop r t env (0 + max_fail_times) w'"
    using reset_loop_service_failures [of max_fail_times env 0 r t w] by auto
  then have "reset_loop r t env 0 w = (None, max_fail_times, None, w')"
    by (simp add: reset_loop_exhausted)
  then show "fst (RandomTask_reset r t env w) = Inl ResetError"
    by (simp add: RandomTask_reset_def)
next
  assume h: "k < max_fail_times \<and> (\<forall>i<k. attempt_raises (env i) = Some ServiceException)
        \<and> attempt_raises (env k) = None \<and> set_start_pos_goal_pos_result (env k) = Inr (s, g)"
  then obtain w1 where a: "reset_loop r t env 0 w = reset_loop r t env (0 + k) w1"
    using reset_loop_service_failures [of k env 0 r t w] by auto
  obtain w2 where "reset_loop r t env k w1 = (None, k, Some g, w2)"
    using reset_loop_break [of k env s g r t w1] h by auto
  with a have "reset_loop r t env 0 w = (None, k, Some g, w2)" by simp
  then show "fst (RandomTask_reset r t env w)
            = Inr (empty_info\<lparr>robot_goal_pos := Some (position_x g, position_y g)\<rparr>)"
    using h by (simp add: RandomTask_reset_def)
qed

theorem random_reset_retry_bound_witness:
  "attempt_raises (always_service_fail 0) = Some ServiceException
   \<and> attempt_raises (always_service_fail 1) = Some ServiceException
   \<and> attempt_raises (always_service_fail 2) = Some ServiceException
   \<and> fst (RandomTask_reset 0.3 (RandomTask_init None 3) always_service_fail world_0) = Inl ResetError
   \<and> 2 < max_fail_times
   \<and> attempt_raises (two_failures_then_ok 0) = Some ServiceException
   \<and> attempt_raises (two_failures_then_ok 1) = Some ServiceException
   \<and> attempt_raises (two_failures_then_ok 2) = None
   \<and> set_start_pos_goal_pos_result (two_failures_then_ok 2) = Inr (pose_a, pose_b)
   \<and> fst (RandomTask_reset 0.3 (RandomTask_init None 3) two_failures_then_ok world_0)
       = Inr (empty_info\<lparr>robot_goal_pos := Some (5, 6)\<rparr>)"
proof -
  have f: "attempt_raises attempt_service_fail = Some ServiceException"
    by (simp add: attempt_raises_def attempt_service_fail_def)
  have o: "attempt_raises attempt_ok = None"
    "set_start_pos_goal_pos_result attempt_ok = Inr (pose_a, pose_b)"
    by (simp_all add: attempt_raises_def attempt_ok_def)
  have h1: "\<forall>i<max_fail_times. attempt_raises (always_service_fail i) = Some ServiceException"
    by (simp add: always_service_fail_def f)
  have h2: "2 < max_fail_times \<and> (\<forall>i<2. attempt_raises (two_failures_then_ok i) = Some ServiceException)
        \<and> attempt_raises (two_failures_then_ok 2) = None
        \<and> set_start_pos_goal_pos_result (two_failures_then_ok 2) = Inr (pose_a, pose_b)"
    by (simp add: two_failures_then_ok_def f o max_fail_times_def)
  have g: "position_x pose_b = 5" "position_y pose_b = 6"
    by (simp_all add: pose_b_def)
  note a = random_reset_retry_bound [where env = always_service_fail and r = "0.3"
      and t = "RandomTask_init None 3" and w = world_0]
  note b = random_reset_retry_bound [where env = two_failures_then_ok and r = "0.3"
      and t = "RandomTask_init None 3" and w = world_0 and k = 2 and s = pose_a and g = pose_b]
  have c1: "fst (RandomTask_reset 0.3 (RandomTask_init None 3) always_service_fail world_0) = Inl ResetError"
    using a h1 by blast
  have c2: "fst (RandomTask_reset 0.3 (RandomTask_init None 3) two_failures_then_ok world_0)
       = Inr (empty_info\<lparr>robot_goal_pos := Some (5, 6)\<rparr>)"
    using b h2 g by simp
  have f0: "attempt_raises (always_service_fail 0) = Some ServiceException"
    "attempt_raises (always_service_fail 1) = Some ServiceException"
    "attempt_raises (always_service_fail 2) = Some ServiceException"
    by (simp_all add: always_service_fail_def f)
  have t0: "attempt_raises (two_failures_then_ok 0) = Some ServiceException"
    "attempt_raises (two_failures_then_ok 1) = Some ServiceException"
    by (simp_all add: two_failures_then_ok_def f)
  from c1 c2 f0 t0 h2 show ?thesis by blast
qed

text \<open>
  Claim C10. When, after \<open>k < 3\<close> passes left by a service exception, a collaborator
  raises an exception \<open>e\<close> that is not a service exception, \<open>e\<close> leaves the loop
  with \<open>fail_times\<close> still \<open>k\<close> and leaves \<^verbatim>\<open>reset\<close>; no further pass is
  made: what the collaborators would do in later passes has no influence on the result
  or on the calls made.
\<close>

theorem other_exception_leaves_reset_at_once:
  assumes "k < max_fail_times"
    and "\<forall>i<k. attempt_raises (env i) = Some ServiceException"
    and "attempt_raises (env k) = Some e" and "e \<noteq> ServiceException"
  shows "(\<exists>w'. reset_loop r t env 0 w = (Some e, k, None, w'))
         \<and> fst (RandomTask_reset r t env w) = Inl e
         \<and> (\<forall>env'. (\<forall>i\<le>k. env' i = env i)
               \<longrightarrow> RandomTask_reset r t env' w = RandomTask_reset r t env w)"
proof (intro conjI allI impI)
  obtain w1 where a: "reset_loop r t env 0 w = reset_loop r t env (0 + k) w1"
    using reset_loop_service_failures [of k env 0 r t w] assms(1,2) by auto
  obtain w2 where "reset_loop r t env k w1 = (Some e, k, None, w2)"
    using reset_loop_raise [of k env e r t w1] assms(1,3,4) by auto
  with a have b: "reset_loop r t env 0 w = (Some e, k, None, w2)" by simp
  then show "\<exists>w'. reset_loop r t env 0 w = (Some e, k, None, w')" by auto
  from b show "fst (RandomTask_reset r t env w) = Inl e"
    by (simp add: RandomTask_reset_def)
next
  fix env' :: "nat \<Rightarrow> attempt"
  assume h: "\<forall>i\<le>k. env' i = env i"
  have "reset_loop r t env' 0 w = reset_loop r t env 0 w"
    using h assms by (intro reset_loop_cong [of 0 k]) auto
  then show "RandomTask_reset r t env' w = RandomTask_reset r t env w"
    by (simp add: RandomTask_reset_def)
qed

theorem other_exception_leaves_reset_at_once_witness:
  "1 < max_fail_times
   \<and> attempt_raises (failure_then_other 0) = Some ServiceException
   \<and> attempt_raises (failure_then_other 1) = Some (OtherException ''ValueError'')
   \<and> OtherException ''ValueError'' \<noteq> ServiceException
   \<and> (\<exists>w'. reset_loop 0.3 (RandomTask_init None 3) failure_then_other 0 world_0
             = (Some (OtherException ''ValueError''), 1, None, w'))
   \<and> fst (RandomTask_reset 0.3 (RandomTask_init None 3) failure_then_other world_0)
       = Inl (OtherException ''ValueError'')
   \<and> RandomTask_reset 0.3 (RandomTask_init None 3) failure_then_other_then_ok world_0
       = RandomTask_reset 0.3 (RandomTask_init None 3) failure_then_other world_0"
proof -
  have h1: "1 < max_fail_times" by (simp add: max_fail_times_def)
  have h2: "\<forall>i<1. attempt_raises (failure_then_other i) = Some ServiceException"
    by (simp add: failure_then_other_def attempt_raises_def attempt_service_fail_def)
  have h3: "attempt_raises (failure_then_other 1) = Some (OtherException ''ValueError'')"
    by (simp add: failure_then_other_def attempt_raises_def attempt_other_fail_def)
  have h4: "OtherException ''ValueError'' \<noteq> ServiceException" by simp
  have e: "\<forall>i\<le>1. failure_then_other_then_ok i = failure_then_other i"
    by (auto simp: failure_then_other_then_ok_def failure_then_other_def)
  note a = other_exception_leaves_reset_at_once [OF h1 h2 h3 h4, where r = "0.3"
      and t = "RandomTask_init None 3" and w = world_0]
  have c: "RandomTask_reset 0.3 (RandomTask_init None 3) failure_then_other_then_ok world_0
       = RandomTask_reset 0.3 (RandomTask_init None 3) failure_then_other world_0"
    using a e by blast
  have a1: "\<exists>w'. reset_loop 0.3 (RandomTask_init None 3) failure_then_other 0 world_0
             = (Some (OtherException ''ValueError''), 1, None, w')"
    using a by blast
  have a2: "fst (RandomTask_reset 0.3 (RandomTask_init None 3) failure_then_other world_0)
       = Inl (OtherException ''ValueError'')"
    using a by blast
  have h2': "attempt_raises (failure_then_other 0) = Some ServiceException"
    using h2 by simp
  from a1 a2 c h1 h2' h3 h4 show ?thesis by blast
qed

section \<open>The repeat counter of the scenario task\<close>

lemma ScenarioTask_reset_state:
  "fst (snd (ScenarioTask_reset c t w)) = t\<lparr>reset_count := reset_count t + 1\<rparr>"
  by (simp add: ScenarioTask_reset_def Let_def split: option.splits)

lemma scenario_resets_state:
  "fst (snd (scenario_resets cs t w)) = t\<lparr>reset_count := reset_count t + int (length cs)\<rparr>"
proof (induction cs arbitrary: t w)
  case Nil
  then show ?case by simp
next
  case (Cons c cs)
  obtain r t1 w1 where a: "ScenarioTask_reset c t w = (r, t1, w1)"
    by (cases "ScenarioTask_reset c t w")
  then have b: "t1 = t\<lparr>reset_count := reset_count t + 1\<rparr>"
    using ScenarioTask_reset_state [of c t w] by simp
  obtain rs t2 w2 where c: "scenario_resets cs t1 w1 = (rs, t2, w2)"
    by (cases "scenario_resets cs t1 w1")
  then have "t2 = t1\<lparr>reset_count := reset_count t1 + int (length cs)\<rparr>"
    using Cons.IH [of t1 w1] by simp
  then show ?case
    using a b c by (simp add: add.assoc)
qed

lemma ScenarioTask_init_state:
  "reset_count (fst (ScenarioTask_init sc w)) = 0 \<and> task_scenario (fst (ScenarioTask_init sc w)) = sc"
  by (simp add: ScenarioTask_init_def)

lemma scenario_after_state:
  "reset_count (fst (scenario_after sc w0 cs)) = int (length cs)
   \<and> task_scenario (fst (scenario_after sc w0 cs)) = sc"
proof -
  obtain t0 w1 where a: "ScenarioTask_init sc w0 = (t0, w1)"
    by (cases "ScenarioTask_init sc w0")
  then have "reset_count t0 = 0 \<and> task_scenario t0 = sc"
    using ScenarioTask_init_state [of sc w0] by simp
  then show ?thesis
    using scenario_resets_state [of cs t0 w1] a by (simp add: scenario_after_def)
qed

text \<open>
  Claim C8. The \<open>n\<close>-th call of \<^verbatim>\<open>ScenarioTask.reset\<close> on an instance (after
  \<open>n - 1\<close> earlier calls \<open>cs\<close>, whatever they returned or raised), when its
  collaborators do not raise, returns an info record whose \<^verbatim>\<open>new_scenerio_loaded\<close>
  is true exactly for the first call and whose \<^verbatim>\<open>num_repeats_curr_scene\<close> is \<open>n\<close>.
\<close>

theorem scenario_reset_reports_first_load_and_repeats:
  assumes "reset_all_peds_result c = None" and "set_pose_result c = None"
  shows "\<exists>info t' w'.
           ScenarioTask_reset c (fst (scenario_after sc w0 cs)) (snd (scenario_after sc w0 cs))
             = (Inr info, t', w')
           \<and> new_scenerio_loaded info = Some (cs = [])
           \<and> num_repeats_curr_scene info = Some (int (length cs) + 1)
           \<and> robot_goal_pos info = Some (robotGoal sc)"
  using assms scenario_after_state [of sc w0 cs]
  by (simp add: ScenarioTask_reset_def Let_def)

theorem scenario_reset_reports_first_load_and_repeats_witness:
  "reset_all_peds_result call_ok = None \<and> set_pose_result call_ok = None
   \<and> (\<exists>info t' w'.
         ScenarioTask_reset call_ok (fst (scenario_after scenario_demo world_0 []))
           (snd (scenario_after scenario_demo world_0 []))
           = (Inr info, t', w')
         \<and> new_scenerio_loaded info = Some True
         \<and> num_repeats_curr_scene info = Some 1
         \<and> robot_goal_pos info = Some (3, 4))
   \<and> (\<exists>info t' w'.
         ScenarioTask_reset call_ok (fst (scenario_after scenario_demo world_0 [call_fail, call_ok]))
           (snd (scenario_after scenario_demo world_0 [call_fail, call_ok]))
           = (Inr info, t', w')
         \<and> new_scenerio_loaded info = Some False
         \<and> num_repeats_curr_scene info = Some 3
         \<and> robot_goal_pos info = Some (3, 4))"
proof -
  have h1: "reset_all_peds_result call_ok = None" and h2: "set_pose_result call_ok = None"
    by (simp_all add: call_ok_def)
  have g: "robotGoal scenario_demo = (3, 4)" by (simp add: scenario_demo_def)
  note a = scenario_reset_reports_first_load_and_repeats [OF h1 h2, of scenario_demo world_0 "[]"]
  note b = scenario_reset_reports_first_load_and_repeats [OF h1 h2, of scenario_demo world_0
      "[call_fail, call_ok]"]
  from a have a': "\<exists>info t' w'.
         ScenarioTask_reset call_ok (fst (scenario_after scenario_demo world_0 []))
           (snd (scenario_after scenario_demo world_0 []))
           = (Inr info, t', w')
         \<and> new_scenerio_loaded info = Some True
         \<and> num_repeats_curr_scene info = Some 1
         \<and> robot_goal_pos info = Some (3, 4)"
    by (simp add: g)
  from b have b': "\<exists>info t' w'.
         ScenarioTask_reset call_ok (fst (scenario_after scenario_demo world_0 [call_fail, call_ok]))
           (snd (scenario_after scenario_demo world_0 [call_fail, call_ok]))
           = (Inr info, t', w')
         \<and> new_scenerio_loaded info = Some False
         \<and> num_repeats_curr_scene info = Some 3
         \<and> robot_goal_pos info = Some (3, 4)"
    by (simp add: g)
  from a' b' h1 h2 show ?thesis by blast
qed

section \<open>The task factory on an unknown mode\<close>

text \<open>
  Claim C5, as amended. For every mode outside \<^verbatim>\<open>random\<close>, \<^verbatim>\<open>staged\<close>,
  \<^verbatim>\<open>scenario\<close> and \<^verbatim>\<open>manual\<close>, when the map service call succeeds,
  \<^verbatim>\<open>get_predefined_task\<close> raises nothing, constructs no task and returns
  \<^verbatim>\<open>None\<close>, having done nothing but the map query.
\<close>

theorem unknown_mode_returns_no_task:
  assumes "mode \<notin> {''random'', ''staged'', ''scenario'', ''manual''}"
    and "get_map_result fe = None"
  shows "get_predefined_task fe ns0 mode start_stage PATHS w = (Inr None, emit [GetMap] w)"
  using assms by (simp add: get_predefined_task_def Let_def)

theorem unknown_mode_returns_no_task_witness:
  "''custom'' \<notin> {''random'', ''staged'', ''scenario'', ''manual''}
   \<and> get_map_result factory_env_ok = None
   \<and> get_predefined_task factory_env_ok ''eval_sim'' ''custom'' (IntArg 1) paths_demo world_0
       = (Inr None, emit [GetMap] world_0)"
proof -
  have h1: "''custom'' \<notin> {''random'', ''staged'', ''scenario'', ''manual''}" by simp
  have h2: "get_map_result factory_env_ok = None" by (simp add: factory_env_ok_def)
  from unknown_mode_returns_no_task [OF h1 h2] h1 h2 show ?thesis by blast
qed

theorem unknown_mode_is_not_an_error:
  "fst (get_predefined_task factory_env_ok ''eval_sim'' ''custom'' (IntArg 1) paths_demo world_0)
     = Inr None"
  by (simp add: get_predefined_task_def factory_env_ok_def Let_def)

section \<open>The loop of the manual task\<close>

lemma manual_reset_never_returns:
  "fst (ManualTask_reset r rs m w) \<noteq> Some (Inr ())"
  by (induction rs arbitrary: m w) (simp_all add: Let_def)

lemma manual_reset_timeout:
  assumes "\<not> new_goal_received m" and "published_goals rd = []"
  shows "fst (ManualTask_reset r (rd # rs) m w) = Some (Inl TimeOut)"
  using assms by (simp add: Let_def)

lemma fold_set_goal_callback:
  "gs \<noteq> [] \<Longrightarrow> fold set_goal_callback gs m = m\<lparr>goal := last gs, new_goal_received := True\<rparr>"
proof (induction gs arbitrary: m)
  case Nil
  then show ?case by simp
next
  case (Cons g gs)
  then show ?case by (cases gs) (simp_all add: set_goal_callback_def)
qed

lemma manual_round_consumes_goal:
  assumes "published_goals rd \<noteq> []"
  shows "ManualTask_reset r (rd # rs) m w =
           ManualTask_reset r rs (m\<lparr>goal := last (published_goals rd), new_goal_received := False\<rparr>)
             (publish_goal rd (last (published_goals rd))
                (emit [RemoveAllObstacles, SetStartPosRandom,
                       RegisterRandomDynamicObstacles (manual_num_of_actors m)
                         (Some [(position_x (start_pos_random rd), position_y (start_pos_random rd), r)])] w))"
  using assms by (simp add: Let_def fold_set_goal_callback)

text \<open>
  Claim C3, evaluated with a goal published within the wait of the first pass:
  \<^verbatim>\<open>ManualTask.reset\<close> publishes the goal, clears the received flag and starts the
  next pass instead of returning; when no further goal is published within the wait of
  the second pass it raises the timeout exception, although a goal was published and
  consumed in this call.
\<close>

theorem manual_reset_loops_after_goal:
  "ManualTask_reset 0.3 [round_with_goal] (ManualTask_init None) world_0
     = (None, (ManualTask_init None)\<lparr>goal := pose_b\<rparr>,
        world_0\<lparr>trace := [RemoveAllObstacles, SetStartPosRandom,
                           RegisterRandomDynamicObstacles 3 (Some [(1, 2, 0.3)]),
                           GoalPublish pose_b, MvbGoalPublish pose_b]\<rparr>)
   \<and> ManualTask_reset 0.3 [round_with_goal, round_silent] (ManualTask_init None) world_0
     = (Some (Inl TimeOut), (ManualTask_init None)\<lparr>goal := pose_b\<rparr>,
        world_0\<lparr>trace := [RemoveAllObstacles, SetStartPosRandom,
                           RegisterRandomDynamicObstacles 3 (Some [(1, 2, 0.3)]),
                           GoalPublish pose_b, MvbGoalPublish pose_b,
                           RemoveAllObstacles, SetStartPosRandom,
                           RegisterRandomDynamicObstacles 3 (Some [(1, 2, 0.3)])]\<rparr>)"
  by (simp add: round_with_goal_def round_silent_def ManualTask_init_def world_0_def
        set_goal_callback_def publish_goal_def emit_def pose_a_def pose_b_def Let_def)

end
